theory Spec2Isabelle
  imports Main
begin

section \<open>bmstu::optional: a value that may be absent, kept in a raw buffer\<close>

text \<open>
  The header \<^verbatim>\<open>bmstu_optional.h\<close> declares the class template \<^verbatim>\<open>optional<T>\<close> with two
  data members: the byte buffer \<^verbatim>\<open>data_\<close>, sized and aligned for one \<^verbatim>\<open>T\<close>, and the flag
  \<^verbatim>\<open>is_initialized_\<close>. Objects of type \<^verbatim>\<open>T\<close> are created in the buffer by placement new and
  ended by an explicit destructor call.

  The type \<^verbatim>\<open>T\<close> is the type variable \<open>'a\<close>. It is taken to be a regular value type: a copy
  is equal to its original, a move gives the destination the value the source had, and
  copying, moving and assigning a \<^verbatim>\<open>T\<close> do not throw. What a move leaves behind in its
  source is a parameter (\<open>T_moves\<close>), and so is the constructor that \<^verbatim>\<open>emplace\<close> selects
  from its arguments, which may throw. Arguments are values: a reference argument that
  points into the optional's own buffer is outside the model.
\<close>

subsection \<open>The buffer and the special member functions of T that run on it\<close>

text \<open>
  The C++ object model is made explicit by two ghost components. The field \<open>data\<close> (the
  member \<^verbatim>\<open>data_\<close>; an Isabelle name cannot end in an underscore) lists the \<^verbatim>\<open>T\<close> objects
  that were constructed in the buffer and whose destructor has not run, the newest first;
  the object that \<^verbatim>\<open>reinterpret_cast<T*>(data_)\<close> designates is the head. The bytes of a
  buffer in which no \<^verbatim>\<open>T\<close> lives are indeterminate and are not modelled. The field \<open>T_log\<close>
  records every special member function of \<^verbatim>\<open>T\<close> that ran on the buffer, the newest
  first.
\<close>

datatype how = By_copy | By_move | From_args

datatype 'a T_event =
    Constructed how 'a
  | Assigned how 'a
  | Moved_from 'a
  | Destroyed 'a

record 'a optional =
  data :: "'a list"
  is_initialized :: bool
  T_log :: "'a T_event list"

text \<open>
  What the moves of \<^verbatim>\<open>T\<close> leave in their source: \<open>after_move_ctor T v\<close> is the state of a
  source that held \<open>v\<close> after \<^verbatim>\<open>T(std::move(x))\<close>, and \<open>after_move_assign T w v\<close> its state after
  \<^verbatim>\<open>y = std::move(x)\<close> where the destination \<open>y\<close> held \<open>w\<close> (an assignment that swaps leaves
  \<open>w\<close>).
\<close>

record 'a T_moves =
  after_move_ctor :: "'a \<Rightarrow> 'a"
  after_move_assign :: "'a \<Rightarrow> 'a \<Rightarrow> 'a"

text \<open>
  \<^verbatim>\<open>class bad_optional_access : public std::exception\<close> is the only exception the header
  defines; \<open>T_exception\<close> stands for whatever a constructor of \<^verbatim>\<open>T\<close> throws.
\<close>

datatype exn = bad_optional_access | T_exception

text \<open>
  A call returns normally with a result and a state, or leaves by an exception with the
  state it unwinds to, or has undefined behaviour (it used an object that is not there).
\<close>

datatype ('r, 's) outcome = Normal 'r 's | Raised exn 's | Undefined

fun and_then :: "('r, 's) outcome \<Rightarrow> ('r \<Rightarrow> 's \<Rightarrow> ('q, 's) outcome) \<Rightarrow> ('q, 's) outcome" where
  "and_then (Normal r s) f = f r s"
| "and_then (Raised e s) f = Raised e s"
| "and_then Undefined f = Undefined"

text \<open>\<^verbatim>\<open>new (data_) T(...)\<close>: an object with value \<open>v\<close> starts to live in the buffer.\<close>

definition placement_new :: "how \<Rightarrow> 'a \<Rightarrow> 'a optional \<Rightarrow> 'a optional" where
  "placement_new k v s = s\<lparr>data := v # data s, T_log := Constructed k v # T_log s\<rparr>"

text \<open>\<^verbatim>\<open>reinterpret_cast<T*>(data_)->~T()\<close>.\<close>

definition T_destroy :: "'a optional \<Rightarrow> (unit, 'a optional) outcome" where
  "T_destroy s =
     (case data s of
        [] \<Rightarrow> Undefined
      | v # vs \<Rightarrow> Normal () (s\<lparr>data := vs, T_log := Destroyed v # T_log s\<rparr>))"

text \<open>\<^verbatim>\<open>**this = value\<close>: the assignment operator of \<^verbatim>\<open>T\<close> runs on the object in the buffer.\<close>

definition T_assign :: "how \<Rightarrow> 'a \<Rightarrow> 'a optional \<Rightarrow> (unit, 'a optional) outcome" where
  "T_assign k v s =
     (case data s of
        [] \<Rightarrow> Undefined
      | w # vs \<Rightarrow> Normal () (s\<lparr>data := v # vs, T_log := Assigned k v # T_log s\<rparr>))"

text \<open>
  \<^verbatim>\<open>std::move(*other)\<close> consumed by a move of \<^verbatim>\<open>T\<close>: the value is handed over and the object
  stays in the buffer, in the state \<open>f\<close> computes.
\<close>

definition T_move_out :: "('a \<Rightarrow> 'a) \<Rightarrow> 'a optional \<Rightarrow> ('a, 'a optional) outcome" where
  "T_move_out f s =
     (case data s of
        [] \<Rightarrow> Undefined
      | v # vs \<Rightarrow> Normal v (s\<lparr>data := f v # vs, T_log := Moved_from v # T_log s\<rparr>))"

subsection \<open>Member functions on one optional\<close>

text \<open>
  The object after the member initialiser \<^verbatim>\<open>is_initialized_(b)\<close> and before the
  constructor's body: the buffer is raw memory, no \<^verbatim>\<open>T\<close> lives in it.
\<close>

definition fresh :: "bool \<Rightarrow> 'a optional" where
  "fresh b = \<lparr>data = [], is_initialized = b, T_log = []\<rparr>"

text \<open>\<^verbatim>\<open>optional() noexcept : is_initialized_(false) {}\<close>\<close>

definition optional_default :: "'a optional" where
  "optional_default = fresh False"

text \<open>\<^verbatim>\<open>optional(const T& value) : is_initialized_(true) { new (data_) T(value); }\<close>\<close>

definition optional_from_value :: "'a \<Rightarrow> 'a optional" where
  "optional_from_value v = placement_new By_copy v (fresh True)"

text \<open>\<^verbatim>\<open>optional(T&& value) noexcept : is_initialized_(true) { new (data_) T(std::move(value)); }\<close>\<close>

definition optional_from_rvalue :: "'a \<Rightarrow> 'a optional" where
  "optional_from_rvalue v = placement_new By_move v (fresh True)"

text \<open>\<^verbatim>\<open>bool has_value() const noexcept { return is_initialized_; }\<close>\<close>

definition has_value :: "'a optional \<Rightarrow> bool" where
  "has_value s = is_initialized s"

text \<open>
  \<^verbatim>\<open>operator*\<close> (for lvalues, const lvalues and rvalues) and \<^verbatim>\<open>operator->\<close> reinterpret the
  buffer as a \<^verbatim>\<open>T\<close> without looking at the flag.
\<close>

definition operator_star :: "'a optional \<Rightarrow> ('a, 'a optional) outcome" where
  "operator_star s = (case data s of [] \<Rightarrow> Undefined | v # vs \<Rightarrow> Normal v s)"

definition operator_arrow :: "'a optional \<Rightarrow> ('a, 'a optional) outcome" where
  "operator_arrow s = (case data s of [] \<Rightarrow> Undefined | v # vs \<Rightarrow> Normal v s)"

text \<open>
  \<^verbatim>\<open>T& value() &\<close> and \<^verbatim>\<open>const T& value() const&\<close>, the checked access (\<open>value\<close> is a
  keyword of Isabelle, hence the longer name).
\<close>

definition value_checked :: "'a optional \<Rightarrow> ('a, 'a optional) outcome" where
  "value_checked s = (if \<not> is_initialized s then Raised bad_optional_access s else operator_star s)"

text \<open>\<^verbatim>\<open>void reset()\<close>\<close>

definition reset :: "'a optional \<Rightarrow> (unit, 'a optional) outcome" where
  "reset s =
     (if is_initialized s
      then and_then (T_destroy s) (\<lambda>_ s1. Normal () (s1\<lparr>is_initialized := False\<rparr>))
      else Normal () s)"

text \<open>\<^verbatim>\<open>~optional() { reset(); }\<close>\<close>

definition destructor :: "'a optional \<Rightarrow> (unit, 'a optional) outcome" where
  "destructor s = reset s"

text \<open>
  \<^verbatim>\<open>template <typename... Args> void emplace(Args&&... args)\<close>. The constructor of \<^verbatim>\<open>T\<close> that
  the arguments select is \<open>ctor\<close>; \<open>None\<close> means that it throws.
\<close>

definition emplace :: "('args \<Rightarrow> 'a option) \<Rightarrow> 'args \<Rightarrow> 'a optional \<Rightarrow> (unit, 'a optional) outcome" where
  "emplace ctor args s =
     and_then (reset s) (\<lambda>_ s1.
       case ctor args of
         None \<Rightarrow> Raised T_exception s1
       | Some v \<Rightarrow> Normal () ((placement_new From_args v s1)\<lparr>is_initialized := True\<rparr>))"

text \<open>\<^verbatim>\<open>optional& operator=(const T& value)\<close>\<close>

definition assign_value :: "'a \<Rightarrow> 'a optional \<Rightarrow> (unit, 'a optional) outcome" where
  "assign_value v s =
     (if is_initialized s
      then T_assign By_copy v s
      else Normal () ((placement_new By_copy v s)\<lparr>is_initialized := True\<rparr>))"

text \<open>\<^verbatim>\<open>optional& operator=(T&& value)\<close>\<close>

definition assign_rvalue :: "'a \<Rightarrow> 'a optional \<Rightarrow> (unit, 'a optional) outcome" where
  "assign_rvalue v s =
     (if is_initialized s
      then T_assign By_move v s
      else Normal () ((placement_new By_move v s)\<lparr>is_initialized := True\<rparr>))"

subsection \<open>Member functions that take another optional\<close>

text \<open>
  The self-assignment test \<^verbatim>\<open>this != &other\<close> compares addresses, so the optionals live in
  a store and the member functions take the addresses of \<^verbatim>\<open>*this\<close> and \<^verbatim>\<open>other\<close>.
\<close>

type_synonym addr = nat

type_synonym 'a store = "addr \<Rightarrow> 'a optional"

text \<open>A member function of one optional, called on the optional at address \<open>p\<close>.\<close>

definition at :: "addr \<Rightarrow> ('a optional \<Rightarrow> ('r, 'a optional) outcome) \<Rightarrow> 'a store \<Rightarrow> ('r, 'a store) outcome" where
  "at p f h =
     (case f (h p) of
        Normal r s \<Rightarrow> Normal r (h(p := s))
      | Raised e s \<Rightarrow> Raised e (h(p := s))
      | Undefined \<Rightarrow> Undefined)"

text \<open>
  \<^verbatim>\<open>optional(const optional& other) : is_initialized_(other.is_initialized_)\<close>. A
  constructor starts from raw storage at \<open>this\<close>: what the store held there before does not
  matter. The member initialiser runs first, then the body reads \<open>other\<close> again.
\<close>

definition copy_construct :: "addr \<Rightarrow> addr \<Rightarrow> 'a store \<Rightarrow> (unit, 'a store) outcome" where
  "copy_construct this other h =
     (let h1 = h(this := fresh (is_initialized (h other))) in
      if is_initialized (h1 other)
      then and_then (at other operator_star h1) (\<lambda>v h2.
             Normal () (h2(this := placement_new By_copy v (h2 this))))
      else Normal () h1)"

text \<open>\<^verbatim>\<open>optional(optional&& other) noexcept : is_initialized_(other.is_initialized_)\<close>\<close>

definition move_construct :: "'a T_moves \<Rightarrow> addr \<Rightarrow> addr \<Rightarrow> 'a store \<Rightarrow> (unit, 'a store) outcome" where
  "move_construct T this other h =
     (let h1 = h(this := fresh (is_initialized (h other))) in
      if is_initialized (h1 other)
      then and_then (at other (T_move_out (after_move_ctor T)) h1) (\<lambda>v h2.
             Normal () (h2(this := placement_new By_move v (h2 this))))
      else Normal () h1)"

text \<open>\<^verbatim>\<open>optional& operator=(const optional& other)\<close>\<close>

definition copy_assign :: "addr \<Rightarrow> addr \<Rightarrow> 'a store \<Rightarrow> (unit, 'a store) outcome" where
  "copy_assign this other h =
     (if this \<noteq> other
      then
        (if is_initialized (h other)
         then
           (if is_initialized (h this)
            then and_then (at other operator_star h) (\<lambda>v h1. at this (T_assign By_copy v) h1)
            else and_then (at other operator_star h) (\<lambda>v h1.
                   Normal () (h1(this := (placement_new By_copy v (h1 this))\<lparr>is_initialized := True\<rparr>))))
         else at this reset h)
      else Normal () h)"

text \<open>\<^verbatim>\<open>optional& operator=(optional&& other) noexcept\<close>\<close>

definition move_assign :: "'a T_moves \<Rightarrow> addr \<Rightarrow> addr \<Rightarrow> 'a store \<Rightarrow> (unit, 'a store) outcome" where
  "move_assign T this other h =
     (if this \<noteq> other
      then
        (if is_initialized (h other)
         then
           (if is_initialized (h this)
            then and_then (at this operator_star h) (\<lambda>w h0.
                 and_then (at other (T_move_out (after_move_assign T w)) h0) (\<lambda>v h1.
                   at this (T_assign By_move v) h1))
            else and_then (at other (T_move_out (after_move_ctor T)) h) (\<lambda>v h1.
                   Normal () (h1(this := (placement_new By_move v (h1 this))\<lparr>is_initialized := True\<rparr>))))
         else at this reset h)
      else Normal () h)"

subsection \<open>The invariant of the data model\<close>

text \<open>
  The number of \<^verbatim>\<open>T\<close> objects that the logged events leave alive in the buffer, and the
  discipline of construction: a constructor runs only on a buffer in which no \<^verbatim>\<open>T\<close>
  lives, so that no object is constructed over another one.
\<close>

fun live :: "'a T_event list \<Rightarrow> nat" where
  "live [] = 0"
| "live (Constructed k v # es) = Suc (live es)"
| "live (Assigned k v # es) = live es"
| "live (Moved_from v # es) = live es"
| "live (Destroyed v # es) = live es - 1"

fun no_double_construction :: "'a T_event list \<Rightarrow> bool" where
  "no_double_construction [] = True"
| "no_double_construction (Constructed k v # es) = (live es = 0 \<and> no_double_construction es)"
| "no_double_construction (Assigned k v # es) = no_double_construction es"
| "no_double_construction (Moved_from v # es) = no_double_construction es"
| "no_double_construction (Destroyed v # es) = no_double_construction es"

text \<open>
  The flag is set exactly when one \<^verbatim>\<open>T\<close> lives in the buffer and clear exactly when none
  does; the log agrees with the buffer and shows no double construction.
\<close>

definition optional_invariant :: "'a optional \<Rightarrow> bool" where
  "optional_invariant s \<longleftrightarrow>
     (is_initialized s \<longleftrightarrow> length (data s) = 1) \<and>
     (\<not> is_initialized s \<longleftrightarrow> data s = []) \<and>
     live (T_log s) = length (data s) \<and>
     no_double_construction (T_log s)"

text \<open>
  For a member function that takes another optional: the optionals at \<open>p\<close> and \<open>q\<close> satisfy
  the invariant in the store \<open>h'\<close>, and every other optional is as it was in \<open>h\<close>.
\<close>

abbreviation kept :: "addr \<Rightarrow> addr \<Rightarrow> 'a store \<Rightarrow> 'a store \<Rightarrow> bool" where
  "kept p q h h' \<equiv>
     optional_invariant (h' p) \<and> optional_invariant (h' q) \<and>
     (\<forall>r. r \<noteq> p \<and> r \<noteq> q \<longrightarrow> h' r = h r)"

text \<open>A property of the state a call ends in, for a call whose behaviour is defined.\<close>

fun holds_after :: "('s \<Rightarrow> bool) \<Rightarrow> ('r, 's) outcome \<Rightarrow> bool" where
  "holds_after P (Normal r s) = P s"
| "holds_after P (Raised e s) = P s"
| "holds_after P Undefined = False"

fun raises :: "exn \<Rightarrow> ('r, 's) outcome \<Rightarrow> bool" where
  "raises e (Normal r s) = False"
| "raises e (Raised e' s) = (e' = e)"
| "raises e Undefined = False"

section \<open>Properties\<close>

subsection \<open>What each member function does\<close>

lemma invariant_cases:
  "optional_invariant s \<Longrightarrow>
     (is_initialized s \<and> (\<exists>v. data s = [v])) \<or> (\<not> is_initialized s \<and> data s = [])"
  by (cases "data s") (auto simp: optional_invariant_def)

lemma reset_engaged:
  "is_initialized s \<Longrightarrow> data s = v # vs \<Longrightarrow>
   reset s = Normal () (s\<lparr>data := vs, T_log := Destroyed v # T_log s, is_initialized := False\<rparr>)"
  by (simp add: reset_def T_destroy_def)

lemma reset_empty: "\<not> is_initialized s \<Longrightarrow> reset s = Normal () s"
  by (simp add: reset_def)

lemma reset_invariant: "optional_invariant s \<Longrightarrow> holds_after optional_invariant (reset s)"
  by (cases "data s") (auto simp: optional_invariant_def reset_def T_destroy_def)

lemma emplace_invariant:
  "optional_invariant s \<Longrightarrow> holds_after optional_invariant (emplace ctor args s)"
  by (cases "data s"; cases "ctor args")
     (auto simp: optional_invariant_def emplace_def reset_def T_destroy_def placement_new_def)

lemma assign_value_invariant:
  "optional_invariant s \<Longrightarrow> holds_after optional_invariant (assign_value v s)"
  by (cases "data s")
     (auto simp: optional_invariant_def assign_value_def T_assign_def placement_new_def)

lemma assign_rvalue_invariant:
  "optional_invariant s \<Longrightarrow> holds_after optional_invariant (assign_rvalue v s)"
  by (cases "data s")
     (auto simp: optional_invariant_def assign_rvalue_def T_assign_def placement_new_def)

lemma constructors_invariant:
  "optional_invariant optional_default"
  "optional_invariant (optional_from_value v)"
  "optional_invariant (optional_from_rvalue v)"
  by (simp_all add: optional_invariant_def optional_default_def optional_from_value_def
      optional_from_rvalue_def fresh_def placement_new_def)

lemma at_kept:
  "holds_after optional_invariant (f (h p)) \<Longrightarrow>
   holds_after (\<lambda>h'. optional_invariant (h' p) \<and> (\<forall>r. r \<noteq> p \<longrightarrow> h' r = h r)) (at p f h)"
  by (cases "f (h p)") (simp_all add: at_def)

lemma copy_construct_empty:
  "\<not> is_initialized (h other) \<Longrightarrow>
   copy_construct this other h = Normal () (h(this := optional_default))"
  by (simp add: copy_construct_def Let_def optional_default_def fresh_def)

lemma copy_construct_engaged:
  "this \<noteq> other \<Longrightarrow> is_initialized (h other) \<Longrightarrow> data (h other) = v # vs \<Longrightarrow>
   copy_construct this other h = Normal () (h(this := optional_from_value v))"
  by (simp add: copy_construct_def Let_def at_def operator_star_def optional_from_value_def)

lemma move_construct_empty:
  "\<not> is_initialized (h other) \<Longrightarrow>
   move_construct T this other h = Normal () (h(this := optional_default))"
  by (simp add: move_construct_def Let_def optional_default_def fresh_def)

lemma move_construct_engaged:
  "this \<noteq> other \<Longrightarrow> is_initialized (h other) \<Longrightarrow> data (h other) = v # vs \<Longrightarrow>
   move_construct T this other h =
     Normal () (h(other := (h other)\<lparr>data := after_move_ctor T v # vs,
                                     T_log := Moved_from v # T_log (h other)\<rparr>,
                  this := optional_from_rvalue v))"
  by (simp add: move_construct_def Let_def at_def T_move_out_def optional_from_rvalue_def)

lemma copy_assign_self: "copy_assign this this h = Normal () h"
  by (simp add: copy_assign_def)

lemma copy_assign_from_empty:
  "this \<noteq> other \<Longrightarrow> \<not> is_initialized (h other) \<Longrightarrow> copy_assign this other h = at this reset h"
  by (simp add: copy_assign_def)

lemma copy_assign_both_engaged:
  "this \<noteq> other \<Longrightarrow> is_initialized (h other) \<Longrightarrow> data (h other) = v # vs \<Longrightarrow>
   is_initialized (h this) \<Longrightarrow> data (h this) = w # ws \<Longrightarrow>
   copy_assign this other h =
     Normal () (h(this := (h this)\<lparr>data := v # ws, T_log := Assigned By_copy v # T_log (h this)\<rparr>))"
  by (simp add: copy_assign_def at_def operator_star_def T_assign_def)

lemma copy_assign_into_empty:
  "this \<noteq> other \<Longrightarrow> is_initialized (h other) \<Longrightarrow> data (h other) = v # vs \<Longrightarrow>
   \<not> is_initialized (h this) \<Longrightarrow>
   copy_assign this other h =
     Normal () (h(this := (h this)\<lparr>data := v # data (h this),
                                   T_log := Constructed By_copy v # T_log (h this),
                                   is_initialized := True\<rparr>))"
  by (simp add: copy_assign_def at_def operator_star_def placement_new_def)

lemma move_assign_self: "move_assign T this this h = Normal () h"
  by (simp add: move_assign_def)

lemma move_assign_from_empty:
  "this \<noteq> other \<Longrightarrow> \<not> is_initialized (h other) \<Longrightarrow> move_assign T this other h = at this reset h"
  by (simp add: move_assign_def)

lemma move_assign_both_engaged:
  "this \<noteq> other \<Longrightarrow> is_initialized (h other) \<Longrightarrow> data (h other) = v # vs \<Longrightarrow>
   is_initialized (h this) \<Longrightarrow> data (h this) = w # ws \<Longrightarrow>
   move_assign T this other h =
     Normal () (h(other := (h other)\<lparr>data := after_move_assign T w v # vs,
                                     T_log := Moved_from v # T_log (h other)\<rparr>,
                  this := (h this)\<lparr>data := v # ws, T_log := Assigned By_move v # T_log (h this)\<rparr>))"
  by (simp add: move_assign_def at_def operator_star_def T_move_out_def T_assign_def)

lemma move_assign_into_empty:
  "this \<noteq> other \<Longrightarrow> is_initialized (h other) \<Longrightarrow> data (h other) = v # vs \<Longrightarrow>
   \<not> is_initialized (h this) \<Longrightarrow>
   move_assign T this other h =
     Normal () (h(other := (h other)\<lparr>data := after_move_ctor T v # vs,
                                     T_log := Moved_from v # T_log (h other)\<rparr>,
                  this := (h this)\<lparr>data := v # data (h this),
                                   T_log := Constructed By_move v # T_log (h this),
                                   is_initialized := True\<rparr>))"
  by (simp add: move_assign_def at_def T_move_out_def placement_new_def)

lemma moved_from_invariant:
  "optional_invariant s \<Longrightarrow> data s = v # vs \<Longrightarrow>
   optional_invariant (s\<lparr>data := x # vs, T_log := Moved_from v # T_log s\<rparr>)"
  by (auto simp: optional_invariant_def)

lemma assigned_invariant:
  "optional_invariant s \<Longrightarrow> data s = w # ws \<Longrightarrow>
   optional_invariant (s\<lparr>data := v # ws, T_log := Assigned k v # T_log s\<rparr>)"
  by (auto simp: optional_invariant_def)

lemma constructed_invariant:
  "optional_invariant s \<Longrightarrow> \<not> is_initialized s \<Longrightarrow>
   optional_invariant (s\<lparr>data := v # data s, T_log := Constructed k v # T_log s,
                          is_initialized := True\<rparr>)"
  by (auto simp: optional_invariant_def)

lemma copy_construct_invariant:
  assumes ne: "this \<noteq> other" and o: "optional_invariant (h other)"
  shows "holds_after (kept this other h) (copy_construct this other h)"
proof (cases "is_initialized (h other)")
  case False
  then show ?thesis
    using ne o by (simp add: copy_construct_empty constructors_invariant)
next
  case True
  with invariant_cases [OF o] obtain v where "data (h other) = [v]" by auto
  with True ne o show ?thesis
    by (simp add: copy_construct_engaged constructors_invariant)
qed

lemma move_construct_invariant:
  assumes ne: "this \<noteq> other" and o: "optional_invariant (h other)"
  shows "holds_after (kept this other h) (move_construct T this other h)"
proof (cases "is_initialized (h other)")
  case False
  then show ?thesis
    using ne o by (simp add: move_construct_empty constructors_invariant)
next
  case True
  with invariant_cases [OF o] obtain v where v: "data (h other) = [v]" by auto
  from v o have "optional_invariant ((h other)\<lparr>data := [after_move_ctor T v],
      T_log := Moved_from v # T_log (h other)\<rparr>)"
    by (simp add: moved_from_invariant)
  with True ne v show ?thesis
    by (simp add: move_construct_engaged constructors_invariant)
qed

lemma assign_from_empty_invariant:
  assumes ne: "this \<noteq> other" and t: "optional_invariant (h this)"
    and o: "optional_invariant (h other)"
  shows "holds_after (kept this other h) (at this reset h)"
proof -
  from at_kept [where f = reset and h = h and p = this, OF reset_invariant [OF t]]
  have "holds_after (\<lambda>h'. optional_invariant (h' this) \<and> (\<forall>r. r \<noteq> this \<longrightarrow> h' r = h r))
          (at this reset h)" .
  with ne o show ?thesis
    by (cases "at this reset h") auto
qed

lemma copy_assign_invariant:
  assumes t: "optional_invariant (h this)" and o: "optional_invariant (h other)"
  shows "holds_after (kept this other h) (copy_assign this other h)"
proof (cases "this = other")
  case True
  then show ?thesis using t by (simp add: copy_assign_self)
next
  case ne: False
  show ?thesis
  proof (cases "is_initialized (h other)")
    case False
    with ne show ?thesis
      by (simp add: copy_assign_from_empty assign_from_empty_invariant [OF ne t o])
  next
    case True
    with invariant_cases [OF o] obtain v where v: "data (h other) = [v]" by auto
    show ?thesis
    proof (cases "is_initialized (h this)")
      case False
      with True ne t o v show ?thesis
        by (simp add: copy_assign_into_empty constructed_invariant)
    next
      case engaged: True
      with invariant_cases [OF t] obtain w where w: "data (h this) = [w]" by auto
      with engaged True ne t o v show ?thesis
        by (simp add: copy_assign_both_engaged assigned_invariant)
    qed
  qed
qed

lemma move_assign_invariant:
  assumes t: "optional_invariant (h this)" and o: "optional_invariant (h other)"
  shows "holds_after (kept this other h) (move_assign T this other h)"
proof (cases "this = other")
  case True
  then show ?thesis using t by (simp add: move_assign_self)
next
  case ne: False
  show ?thesis
  proof (cases "is_initialized (h other)")
    case False
    with ne show ?thesis
      by (simp add: move_assign_from_empty assign_from_empty_invariant [OF ne t o])
  next
    case True
    with invariant_cases [OF o] obtain v where v: "data (h other) = [v]" by auto
    have left: "optional_invariant ((h other)\<lparr>data := [x],
        T_log := Moved_from v # T_log (h other)\<rparr>)" for x
      using v o by (simp add: moved_from_invariant)
    show ?thesis
    proof (cases "is_initialized (h this)")
      case False
      with True ne t v left show ?thesis
        by (simp add: move_assign_into_empty constructed_invariant)
    next
      case engaged: True
      with invariant_cases [OF t] obtain w where w: "data (h this) = [w]" by auto
      with engaged True ne t v left show ?thesis
        by (simp add: move_assign_both_engaged assigned_invariant)
    qed
  qed
qed

lemma destructor_leaves_nothing:
  "optional_invariant s \<Longrightarrow>
   holds_after (\<lambda>s'. data s' = [] \<and> \<not> is_initialized s') (destructor s)"
  by (cases "data s") (auto simp: optional_invariant_def destructor_def reset_def T_destroy_def)

lemma value_checked_invariant:
  "optional_invariant s \<Longrightarrow> holds_after optional_invariant (value_checked s)"
  by (cases "data s") (auto simp: optional_invariant_def value_checked_def operator_star_def)

lemma raises_and_then:
  "raises e (and_then m f) \<longleftrightarrow> raises e m \<or> (\<exists>r s. m = Normal r s \<and> raises e (f r s))"
  by (cases m) simp_all

lemma raises_at: "raises e (at p f h) \<longleftrightarrow> raises e (f (h p))"
  by (cases "f (h p)") (simp_all add: at_def)

lemma T_destroy_no_raise: "\<not> raises e (T_destroy s)"
  by (cases "data s") (simp_all add: T_destroy_def)

lemma T_assign_no_raise: "\<not> raises e (T_assign k v s)"
  by (cases "data s") (simp_all add: T_assign_def)

lemma T_move_out_no_raise: "\<not> raises e (T_move_out f s)"
  by (cases "data s") (simp_all add: T_move_out_def)

lemma operator_star_no_raise: "\<not> raises e (operator_star s)"
  by (cases "data s") (simp_all add: operator_star_def)

lemma operator_arrow_no_raise: "\<not> raises e (operator_arrow s)"
  by (cases "data s") (simp_all add: operator_arrow_def)

lemma reset_no_raise: "\<not> raises e (reset s)"
  by (simp add: reset_def raises_and_then T_destroy_no_raise)

lemma emplace_no_bad_access: "\<not> raises bad_optional_access (emplace ctor args s)"
  by (cases "ctor args") (simp_all add: emplace_def raises_and_then reset_no_raise)

lemma assign_value_no_raise: "\<not> raises e (assign_value v s)"
  by (simp add: assign_value_def T_assign_no_raise)

lemma assign_rvalue_no_raise: "\<not> raises e (assign_rvalue v s)"
  by (simp add: assign_rvalue_def T_assign_no_raise)

lemma copy_construct_no_raise: "\<not> raises e (copy_construct this other h)"
  by (simp add: copy_construct_def Let_def raises_and_then raises_at operator_star_no_raise)

lemma move_construct_no_raise: "\<not> raises e (move_construct T this other h)"
  by (simp add: move_construct_def Let_def raises_and_then raises_at T_move_out_no_raise)

lemma copy_assign_no_raise: "\<not> raises e (copy_assign this other h)"
  by (simp add: copy_assign_def raises_and_then raises_at operator_star_no_raise
      T_assign_no_raise reset_no_raise)

lemma move_assign_no_raise: "\<not> raises e (move_assign T this other h)"
  by (simp add: move_assign_def raises_and_then raises_at operator_star_no_raise
      T_move_out_no_raise T_assign_no_raise reset_no_raise)

lemma value_checked_raises:
  "raises e (value_checked s) \<longleftrightarrow> e = bad_optional_access \<and> \<not> is_initialized s"
  by (auto simp: value_checked_def operator_star_no_raise)

lemma value_checked_engaged:
  "is_initialized s \<Longrightarrow> data s = v # vs \<Longrightarrow> value_checked s = Normal v s"
  by (simp add: value_checked_def operator_star_def)

lemma value_checked_empty:
  "\<not> is_initialized s \<Longrightarrow> value_checked s = Raised bad_optional_access s"
  by (simp add: value_checked_def)

lemma at_frame:
  "p \<noteq> q \<Longrightarrow> at p f h = Normal r h' \<or> at p f h = Raised e h' \<Longrightarrow> h' q = h q"
  by (cases "f (h p)") (auto simp: at_def)

lemma emplace_engaged:
  "is_initialized s \<Longrightarrow> data s = w # ws \<Longrightarrow>
   emplace ctor args s =
     (case ctor args of
        None \<Rightarrow> Raised T_exception
                 (s\<lparr>data := ws, T_log := Destroyed w # T_log s, is_initialized := False\<rparr>)
      | Some v \<Rightarrow> Normal ()
                 (s\<lparr>data := v # ws,
                    T_log := Constructed From_args v # Destroyed w # T_log s,
                    is_initialized := True\<rparr>))"
  by (cases "ctor args") (simp_all add: emplace_def reset_def T_destroy_def placement_new_def)

lemma emplace_empty:
  "\<not> is_initialized s \<Longrightarrow>
   emplace ctor args s =
     (case ctor args of
        None \<Rightarrow> Raised T_exception s
      | Some v \<Rightarrow> Normal ()
                 (s\<lparr>data := v # data s,
                    T_log := Constructed From_args v # T_log s,
                    is_initialized := True\<rparr>))"
  by (cases "ctor args") (simp_all add: emplace_def reset_def placement_new_def)

lemma at_reset_engaged:
  "is_initialized (h p) \<Longrightarrow> data (h p) = v # vs \<Longrightarrow>
   at p reset h =
     Normal () (h(p := (h p)\<lparr>data := vs, T_log := Destroyed v # T_log (h p),
                              is_initialized := False\<rparr>))"
  by (simp add: at_def reset_engaged)

lemma at_reset_empty: "\<not> is_initialized (h p) \<Longrightarrow> at p reset h = Normal () h"
  by (simp add: at_def reset_empty)

lemma at_reset_result:
  assumes "optional_invariant (h p)"
  shows "\<exists>h'. at p reset h = Normal () h' \<and> \<not> is_initialized (h' p) \<and> data (h' p) = [] \<and>
           (\<forall>q. q \<noteq> p \<longrightarrow> h' q = h q)"
proof (cases "is_initialized (h p)")
  case True
  with invariant_cases [OF assms] obtain w where "data (h p) = [w]" by auto
  with True show ?thesis by (simp add: at_reset_engaged)
next
  case False
  then show ?thesis
    using invariant_cases [OF assms] by (simp add: at_reset_empty)
qed

subsection \<open>The invariant is established by the constructors and kept by every member function\<close>

text \<open>
  Claim C1. In every optional the flag is set if and only if exactly one \<^verbatim>\<open>T\<close> object lives in
  the buffer, and no \<^verbatim>\<open>T\<close> is constructed in the buffer while another one lives there (both
  are parts of \<open>optional_invariant\<close>). The constructors establish this: the default
  constructor and the two constructors from a value from nothing, the copy and the move
  constructor whatever the storage at \<open>this\<close> held before, the invariant being asked of the
  source only (the new optional is an object other than its source). Every other member
  function keeps it: the four assignments (for the two that take an optional also when
  both addresses are the same), \<^verbatim>\<open>emplace\<close> whether the constructor of \<^verbatim>\<open>T\<close> returns or
  throws, \<^verbatim>\<open>reset\<close>, the destructor, after which no \<^verbatim>\<open>T\<close> is left in the buffer, and the
  checked access. A member function that takes another optional leaves both with the
  invariant and changes no third optional. None of these calls has undefined behaviour.
\<close>

theorem engaged_iff_one_live_object:
  assumes s: "optional_invariant s" and o: "optional_invariant (h other)"
  shows "optional_invariant (optional_default :: 'a optional) \<and>
         optional_invariant (optional_from_value v) \<and>
         optional_invariant (optional_from_rvalue v) \<and>
         (this \<noteq> other \<longrightarrow> holds_after (kept this other h) (copy_construct this other h)) \<and>
         (this \<noteq> other \<longrightarrow> holds_after (kept this other h) (move_construct T this other h)) \<and>
         holds_after optional_invariant (assign_value v s) \<and>
         holds_after optional_invariant (assign_rvalue v s) \<and>
         (optional_invariant (h this) \<longrightarrow>
            holds_after (kept this other h) (copy_assign this other h)) \<and>
         (optional_invariant (h this) \<longrightarrow>
            holds_after (kept this other h) (move_assign T this other h)) \<and>
         holds_after optional_invariant (emplace ctor args s) \<and>
         holds_after optional_invariant (reset s) \<and>
         holds_after optional_invariant (destructor s) \<and>
         holds_after (\<lambda>s'. data s' = [] \<and> \<not> is_initialized s') (destructor s) \<and>
         holds_after optional_invariant (value_checked s)"
proof -
  have constructed: "holds_after (kept this other h) (copy_construct this other h) \<and>
      holds_after (kept this other h) (move_construct T this other h)" if "this \<noteq> other"
    using that o by (simp add: copy_construct_invariant move_construct_invariant)
  have assigned: "holds_after (kept this other h) (copy_assign this other h) \<and>
      holds_after (kept this other h) (move_assign T this other h)"
    if "optional_invariant (h this)"
    using that o by (simp add: copy_assign_invariant move_assign_invariant)
  have single: "holds_after optional_invariant (assign_value v s) \<and>
      holds_after optional_invariant (assign_rvalue v s) \<and>
      holds_after optional_invariant (emplace ctor args s) \<and>
      holds_after optional_invariant (reset s) \<and>
      holds_after optional_invariant (destructor s) \<and>
      holds_after (\<lambda>s'. data s' = [] \<and> \<not> is_initialized s') (destructor s) \<and>
      holds_after optional_invariant (value_checked s)"
    using s
    by (simp add: assign_value_invariant assign_rvalue_invariant emplace_invariant
        reset_invariant destructor_def destructor_leaves_nothing [unfolded destructor_def]
        value_checked_invariant)
  from constructed assigned single show ?thesis
    by (simp add: constructors_invariant)
qed

text \<open>
  An instance: in the store below the storage at address 0 is raw, with a stray flag and no
  object, so it does not satisfy the invariant; the optional at 1 holds 7 and the one at 2
  is empty. Copy and move construction at 0 from 1 establish the invariant at 0; move
  assignment of 1 to 2 keeps it.
\<close>

theorem engaged_iff_one_live_object_witness:
  "optional_invariant (optional_from_value (5::int)) \<and>
   \<not> optional_invariant
       (((\<lambda>p::addr. optional_default)
          (1 := optional_from_value (7::int),
           0 := \<lparr>data = [], is_initialized = True, T_log = []\<rparr>)) 0) \<and>
   optional_invariant
       (((\<lambda>p::addr. optional_default)
          (1 := optional_from_value (7::int),
           0 := \<lparr>data = [], is_initialized = True, T_log = []\<rparr>)) 1) \<and>
   optional_invariant
       (((\<lambda>p::addr. optional_default)
          (1 := optional_from_value (7::int),
           0 := \<lparr>data = [], is_initialized = True, T_log = []\<rparr>)) 2) \<and>
   holds_after (\<lambda>h'. optional_invariant (h' 0) \<and> optional_invariant (h' 1))
     (copy_construct 0 1
        ((\<lambda>p::addr. optional_default)
          (1 := optional_from_value (7::int),
           0 := \<lparr>data = [], is_initialized = True, T_log = []\<rparr>))) \<and>
   holds_after (\<lambda>h'. optional_invariant (h' 0) \<and> optional_invariant (h' 1))
     (move_construct \<lparr>after_move_ctor = (\<lambda>x. 0), after_move_assign = (\<lambda>w x. w)\<rparr> 0 1
        ((\<lambda>p::addr. optional_default)
          (1 := optional_from_value (7::int),
           0 := \<lparr>data = [], is_initialized = True, T_log = []\<rparr>))) \<and>
   holds_after (\<lambda>h'. optional_invariant (h' 2) \<and> optional_invariant (h' 1))
     (move_assign \<lparr>after_move_ctor = (\<lambda>x. 0), after_move_assign = (\<lambda>w x. w)\<rparr> 2 1
        ((\<lambda>p::addr. optional_default)
          (1 := optional_from_value (7::int),
           0 := \<lparr>data = [], is_initialized = True, T_log = []\<rparr>))) \<and>
   holds_after optional_invariant
     (emplace (\<lambda>n::nat. if n = 0 then None else Some (int n)) 3 (optional_from_value (5::int))) \<and>
   holds_after optional_invariant
     (emplace (\<lambda>n::nat. if n = 0 then None else Some (int n)) 0 (optional_from_value (5::int))) \<and>
   holds_after optional_invariant (reset (optional_from_value (5::int)))"
proof -
  let ?h = "(\<lambda>p::addr. optional_default)
          (1 := optional_from_value (7::int),
           0 := \<lparr>data = [], is_initialized = True, T_log = []\<rparr>)"
  let ?T = "\<lparr>after_move_ctor = (\<lambda>x::int. 0), after_move_assign = (\<lambda>w x::int. w)\<rparr>"
  let ?ctor = "\<lambda>n::nat. if n = 0 then None else Some (int n)"
  have a: "optional_invariant (optional_from_value (5::int))"
    by (simp add: optional_invariant_def optional_from_value_def fresh_def placement_new_def)
  have raw: "\<not> optional_invariant (?h 0)"
    by (simp add: optional_invariant_def)
  have c: "optional_invariant (?h 1)"
    by (simp add: optional_invariant_def optional_from_value_def fresh_def placement_new_def)
  have d: "optional_invariant (?h 2)"
    by (simp add: optional_invariant_def optional_default_def fresh_def)
  have weaken: "holds_after (\<lambda>h'. optional_invariant (h' p) \<and> optional_invariant (h' 1)) x"
    if "holds_after (kept p 1 ?h) x" for x :: "(unit, int store) outcome" and p
    using that by (cases x) simp_all
  note construct = engaged_iff_one_live_object [where s = "optional_from_value (5::int)"
      and h = ?h and this = 0 and other = 1
      and T = ?T and ctor = ?ctor and args = 3 and v = 9, OF a c]
  note assign = engaged_iff_one_live_object [where s = "optional_from_value (5::int)"
      and h = ?h and this = 2 and other = 1
      and T = ?T and ctor = ?ctor and args = 0 and v = 9, OF a c]
  have ne: "(0::addr) \<noteq> 1" by simp
  have "holds_after (kept 0 1 ?h) (copy_construct 0 1 ?h)"
    using construct ne by blast
  moreover have "holds_after (kept 0 1 ?h) (move_construct ?T 0 1 ?h)"
    using construct ne by blast
  moreover have "holds_after (kept 2 1 ?h) (move_assign ?T 2 1 ?h)"
    using assign d by blast
  moreover have "holds_after optional_invariant (emplace ?ctor 3 (optional_from_value (5::int)))"
    using construct by blast
  moreover have "holds_after optional_invariant (emplace ?ctor 0 (optional_from_value (5::int)))"
    using assign by blast
  moreover have "holds_after optional_invariant (reset (optional_from_value (5::int)))"
    using construct by blast
  ultimately show ?thesis using a raw c d weaken by blast
qed

subsection \<open>The checked access and its exception\<close>

text \<open>
  Claim C2. The checked access \<^verbatim>\<open>value()\<close> raises \<^verbatim>\<open>bad_optional_access\<close> if and only if the
  optional is not engaged, and it raises nothing else. On an engaged optional it behaves as
  the dereference and, the invariant given, returns the one value in the buffer. No other
  member function raises \<^verbatim>\<open>bad_optional_access\<close>, whatever state it is called in. (The
  constructors from nothing and from a value and \<^verbatim>\<open>has_value\<close> return plain values in the
  model: they have no exceptional exit at all.)
\<close>

theorem bad_optional_access_only_from_value:
  "(raises bad_optional_access (value_checked s) \<longleftrightarrow> \<not> has_value s) \<and>
   (value_checked s = Raised bad_optional_access s \<longleftrightarrow> \<not> has_value s) \<and>
   \<not> raises T_exception (value_checked s) \<and>
   (has_value s \<longrightarrow> value_checked s = operator_star s) \<and>
   (has_value s \<and> optional_invariant s \<longrightarrow>
      (\<exists>v. data s = [v] \<and> value_checked s = Normal v s)) \<and>
   \<not> raises bad_optional_access (operator_star s) \<and>
   \<not> raises bad_optional_access (operator_arrow s) \<and>
   \<not> raises bad_optional_access (copy_construct this other h) \<and>
   \<not> raises bad_optional_access (move_construct T this other h) \<and>
   \<not> raises bad_optional_access (assign_value w s) \<and>
   \<not> raises bad_optional_access (assign_rvalue w s) \<and>
   \<not> raises bad_optional_access (copy_assign this other h) \<and>
   \<not> raises bad_optional_access (move_assign T this other h) \<and>
   \<not> raises bad_optional_access (emplace ctor args s) \<and>
   \<not> raises bad_optional_access (reset s) \<and>
   \<not> raises bad_optional_access (destructor s)"
proof -
  have engaged: "\<exists>v. data s = [v] \<and> value_checked s = Normal v s"
    if "has_value s" "optional_invariant s"
    using that invariant_cases [of s] by (auto simp: has_value_def value_checked_engaged)
  have iff: "value_checked s = Raised bad_optional_access s \<longleftrightarrow> \<not> has_value s"
    by (cases "data s") (auto simp: value_checked_def has_value_def operator_star_def)
  show ?thesis
    using engaged iff
    by (simp add: value_checked_raises has_value_def value_checked_def operator_star_no_raise
        operator_arrow_no_raise copy_construct_no_raise move_construct_no_raise
        assign_value_no_raise assign_rvalue_no_raise copy_assign_no_raise
        move_assign_no_raise emplace_no_bad_access reset_no_raise destructor_def)
qed

theorem bad_optional_access_only_from_value_witness:
  "has_value (optional_from_value (5::int)) \<and>
   optional_invariant (optional_from_value (5::int)) \<and>
   value_checked (optional_from_value (5::int)) = Normal 5 (optional_from_value 5) \<and>
   \<not> has_value (optional_default :: int optional) \<and>
   value_checked (optional_default :: int optional) = Raised bad_optional_access optional_default"
proof -
  have a: "has_value (optional_from_value (5::int))"
    by (simp add: has_value_def optional_from_value_def fresh_def placement_new_def)
  have b: "optional_invariant (optional_from_value (5::int))"
    by (simp add: optional_invariant_def optional_from_value_def fresh_def placement_new_def)
  have c: "\<not> has_value (optional_default :: int optional)"
    by (simp add: has_value_def optional_default_def fresh_def)
  have d: "data (optional_from_value (5::int)) = [5]"
    by (simp add: optional_from_value_def fresh_def placement_new_def)
  from bad_optional_access_only_from_value [where s = "optional_from_value (5::int)"
      and this = 0 and other = 1 and h = "\<lambda>p::addr. optional_default :: int optional"
      and T = "\<lparr>after_move_ctor = (\<lambda>x. 0), after_move_assign = (\<lambda>w x. w)\<rparr>"
      and w = 7 and ctor = "\<lambda>n::nat. Some (int n)" and args = 3] a b d
  have "value_checked (optional_from_value (5::int)) = Normal 5 (optional_from_value 5)"
    by auto
  moreover from bad_optional_access_only_from_value [where s = "optional_default :: int optional"
      and this = 0 and other = 1 and h = "\<lambda>p::addr. optional_default :: int optional"
      and T = "\<lparr>after_move_ctor = (\<lambda>x. 0), after_move_assign = (\<lambda>w x. w)\<rparr>"
      and w = 7 and ctor = "\<lambda>n::nat. Some (int n)" and args = 3] c
  have "value_checked (optional_default :: int optional) = Raised bad_optional_access optional_default"
    by blast
  ultimately show ?thesis using a b c by blast
qed

subsection \<open>Construction from a value\<close>

text \<open>
  Claim C3. For every value \<open>v\<close>, the optional constructed from \<open>v\<close>, by copy or by move,
  reports \<^verbatim>\<open>has_value()\<close> and its checked access returns \<open>v\<close>, leaving the optional as it
  is.
\<close>

theorem construct_from_value_then_value:
  "has_value (optional_from_value v) \<and>
   value_checked (optional_from_value v) = Normal v (optional_from_value v) \<and>
   has_value (optional_from_rvalue v) \<and>
   value_checked (optional_from_rvalue v) = Normal v (optional_from_rvalue v)"
  by (simp add: has_value_def value_checked_def operator_star_def optional_from_value_def
      optional_from_rvalue_def fresh_def placement_new_def)

theorem construct_from_value_then_value_witness:
  "has_value (optional_from_value (42::int)) \<and>
   value_checked (optional_from_value (42::int)) =
     Normal 42 \<lparr>data = [42], is_initialized = True, T_log = [Constructed By_copy 42]\<rparr> \<and>
   has_value (optional_from_rvalue (42::int)) \<and>
   value_checked (optional_from_rvalue (42::int)) =
     Normal 42 \<lparr>data = [42], is_initialized = True, T_log = [Constructed By_move 42]\<rparr>"
  using construct_from_value_then_value [of "42::int"]
  by (simp add: optional_from_value_def optional_from_rvalue_def fresh_def placement_new_def)

subsection \<open>Move construction\<close>

text \<open>
  Claim C4. Move construction from an engaged source that holds \<open>v\<close> gives an engaged
  destination whose checked access returns \<open>v\<close>. The flag of the source is not cleared and
  its buffer is not reset: the source still reports \<^verbatim>\<open>has_value()\<close>, and the object in its
  buffer is still there, in the state the move constructor of \<^verbatim>\<open>T\<close> left it in; the only
  event on the source's buffer is that move.
\<close>

theorem move_construct_leaves_source_engaged:
  assumes "this \<noteq> other" and "has_value (h other)" and "data (h other) = [v]"
  shows "\<exists>h'. move_construct T this other h = Normal () h' \<and>
           has_value (h' this) \<and>
           value_checked (h' this) = Normal v (h' this) \<and>
           data (h' this) = [v] \<and>
           has_value (h' other) \<and>
           data (h' other) = [after_move_ctor T v] \<and>
           T_log (h' other) = Moved_from v # T_log (h other)"
  using assms
  by (simp add: move_construct_engaged has_value_def value_checked_def operator_star_def
      optional_from_rvalue_def fresh_def placement_new_def)

theorem move_construct_leaves_source_engaged_witness:
  "has_value (((\<lambda>p::addr. optional_default)(1 := optional_from_value (7::int))) 1) \<and>
   data (((\<lambda>p::addr. optional_default)(1 := optional_from_value (7::int))) 1) = [7] \<and>
   (\<exists>h'. move_construct \<lparr>after_move_ctor = (\<lambda>x. 0), after_move_assign = (\<lambda>w x. w)\<rparr> 0 1
            ((\<lambda>p::addr. optional_default)(1 := optional_from_value (7::int))) = Normal () h' \<and>
         has_value (h' 0) \<and> value_checked (h' 0) = Normal 7 (h' 0) \<and>
         has_value (h' 1) \<and> data (h' 1) = [0])"
proof -
  let ?h = "(\<lambda>p::addr. optional_default)(1 := optional_from_value (7::int))"
  let ?T = "\<lparr>after_move_ctor = (\<lambda>x::int. 0), after_move_assign = (\<lambda>w x::int. w)\<rparr>"
  have a: "(0::addr) \<noteq> 1" by simp
  have b: "has_value (?h 1)"
    by (simp add: has_value_def optional_from_value_def fresh_def placement_new_def)
  have c: "data (?h 1) = [7]"
    by (simp add: optional_from_value_def fresh_def placement_new_def)
  from move_construct_leaves_source_engaged
    [where h = ?h and this = 0 and other = 1 and v = 7 and T = ?T, OF a b c] b c
  show ?thesis by auto
qed

subsection \<open>emplace\<close>

text \<open>
  Claim C5. On every optional that satisfies the invariant, \<^verbatim>\<open>emplace(args...)\<close> first runs
  \<^verbatim>\<open>reset()\<close>, which destroys the contained value if there is one and leaves the optional
  empty. If the constructor of \<^verbatim>\<open>T\<close> then returns \<open>v\<close>, the optional ends engaged with \<open>v\<close>,
  and the construction is logged after the destruction. If the constructor throws, the
  exception leaves \<^verbatim>\<open>emplace\<close> and the optional stays as \<^verbatim>\<open>reset()\<close> left it: empty.
\<close>

theorem emplace_resets_then_constructs:
  assumes "optional_invariant s"
  shows "\<exists>s1. reset s = Normal () s1 \<and> \<not> has_value s1 \<and> data s1 = [] \<and>
           (has_value s \<longrightarrow> (\<exists>w. data s = [w] \<and> T_log s1 = Destroyed w # T_log s)) \<and>
           (\<not> has_value s \<longrightarrow> s1 = s) \<and>
           (\<forall>v. ctor args = Some v \<longrightarrow>
              (\<exists>s'. emplace ctor args s = Normal () s' \<and>
                    has_value s' \<and> value_checked s' = Normal v s' \<and> data s' = [v] \<and>
                    T_log s' = Constructed From_args v # T_log s1)) \<and>
           (ctor args = None \<longrightarrow> emplace ctor args s = Raised T_exception s1)"
proof (cases "is_initialized s")
  case True
  with invariant_cases [OF assms] obtain w where w: "data s = [w]" by auto
  from True w show ?thesis
    by (simp add: reset_engaged emplace_engaged has_value_def value_checked_def
        operator_star_def)
next
  case False
  with invariant_cases [OF assms] have "data s = []" by auto
  with False show ?thesis
    by (simp add: reset_empty emplace_empty has_value_def value_checked_def
        operator_star_def)
qed

theorem emplace_resets_then_constructs_witness:
  "optional_invariant (optional_from_value (5::int)) \<and>
   emplace (\<lambda>n::nat. if n = 0 then None else Some (int n)) 3 (optional_from_value (5::int)) =
     Normal () \<lparr>data = [3], is_initialized = True,
                T_log = [Constructed From_args 3, Destroyed 5, Constructed By_copy 5]\<rparr> \<and>
   emplace (\<lambda>n::nat. if n = 0 then None else Some (int n)) 0 (optional_from_value (5::int)) =
     Raised T_exception \<lparr>data = [], is_initialized = False,
                T_log = [Destroyed 5, Constructed By_copy 5]\<rparr>"
proof -
  let ?s = "optional_from_value (5::int)"
  let ?ctor = "\<lambda>n::nat. if n = 0 then None else Some (int n)"
  have a: "optional_invariant ?s"
    by (simp add: optional_invariant_def optional_from_value_def fresh_def placement_new_def)
  have r: "reset ?s = Normal () \<lparr>data = [], is_initialized = False,
                T_log = [Destroyed 5, Constructed By_copy 5]\<rparr>"
    by (simp add: reset_def T_destroy_def optional_from_value_def fresh_def placement_new_def)
  from emplace_resets_then_constructs [OF a, of ?ctor 3] r
  have "\<exists>s'. emplace ?ctor 3 ?s = Normal () s' \<and> data s' = [3] \<and> has_value s' \<and>
          T_log s' = [Constructed From_args 3, Destroyed 5, Constructed By_copy 5]"
    by auto
  then have e3: "emplace ?ctor 3 ?s = Normal () \<lparr>data = [3], is_initialized = True,
                T_log = [Constructed From_args 3, Destroyed 5, Constructed By_copy 5]\<rparr>"
    by (auto simp: has_value_def)
  from emplace_resets_then_constructs [OF a, of ?ctor 0] r
  have e0: "emplace ?ctor 0 ?s = Raised T_exception \<lparr>data = [], is_initialized = False,
                T_log = [Destroyed 5, Constructed By_copy 5]\<rparr>"
    by auto
  from a e3 e0 show ?thesis by blast
qed

subsection \<open>Assignment of a value\<close>

text \<open>
  Claim C6. Assigning a value \<open>v\<close> (by copy or by move) to an engaged optional runs the
  assignment operator of \<^verbatim>\<open>T\<close> on the object that is there, and nothing else: the one new
  event is that assignment, no destruction and no construction. The optional stays engaged
  and holds \<open>v\<close>. Assigning \<open>v\<close> to an empty optional constructs a \<^verbatim>\<open>T\<close> in the buffer, and
  the optional becomes engaged with \<open>v\<close>.
\<close>

theorem assign_value_assigns_or_constructs:
  assumes "optional_invariant s"
  shows "(has_value s \<longrightarrow>
            (\<exists>s'. assign_value v s = Normal () s' \<and> has_value s' \<and>
                  value_checked s' = Normal v s' \<and>
                  T_log s' = Assigned By_copy v # T_log s) \<and>
            (\<exists>s'. assign_rvalue v s = Normal () s' \<and> has_value s' \<and>
                  value_checked s' = Normal v s' \<and>
                  T_log s' = Assigned By_move v # T_log s)) \<and>
         (\<not> has_value s \<longrightarrow>
            (\<exists>s'. assign_value v s = Normal () s' \<and> has_value s' \<and>
                  value_checked s' = Normal v s' \<and>
                  T_log s' = Constructed By_copy v # T_log s) \<and>
            (\<exists>s'. assign_rvalue v s = Normal () s' \<and> has_value s' \<and>
                  value_checked s' = Normal v s' \<and>
                  T_log s' = Constructed By_move v # T_log s))"
proof (cases "is_initialized s")
  case True
  with invariant_cases [OF assms] obtain w where w: "data s = [w]" by auto
  from True w show ?thesis
    by (simp add: assign_value_def assign_rvalue_def T_assign_def has_value_def
        value_checked_def operator_star_def)
next
  case False
  with invariant_cases [OF assms] have "data s = []" by auto
  with False show ?thesis
    by (simp add: assign_value_def assign_rvalue_def placement_new_def has_value_def
        value_checked_def operator_star_def)
qed

theorem assign_value_assigns_or_constructs_witness:
  "optional_invariant (optional_from_value (5::int)) \<and>
   has_value (optional_from_value (5::int)) \<and>
   (\<exists>s'. assign_value 9 (optional_from_value (5::int)) = Normal () s' \<and> has_value s' \<and>
         value_checked s' = Normal 9 s' \<and>
         T_log s' = [Assigned By_copy 9, Constructed By_copy 5]) \<and>
   optional_invariant (optional_default :: int optional) \<and>
   \<not> has_value (optional_default :: int optional) \<and>
   (\<exists>s'. assign_value 9 (optional_default :: int optional) = Normal () s' \<and> has_value s' \<and>
         value_checked s' = Normal 9 s' \<and>
         T_log s' = [Constructed By_copy 9])"
proof -
  let ?s = "optional_from_value (5::int)"
  let ?e = "optional_default :: int optional"
  have a: "optional_invariant ?s"
    by (simp add: optional_invariant_def optional_from_value_def fresh_def placement_new_def)
  have b: "has_value ?s"
    by (simp add: has_value_def optional_from_value_def fresh_def placement_new_def)
  have l: "T_log ?s = [Constructed By_copy 5]"
    by (simp add: optional_from_value_def fresh_def placement_new_def)
  have c: "optional_invariant ?e"
    by (simp add: optional_invariant_def optional_default_def fresh_def)
  have d: "\<not> has_value ?e"
    by (simp add: has_value_def optional_default_def fresh_def)
  have m: "T_log ?e = []"
    by (simp add: optional_default_def fresh_def)
  from assign_value_assigns_or_constructs [OF a, of 9] b l
  have one: "\<exists>s'. assign_value 9 ?s = Normal () s' \<and> has_value s' \<and>
         value_checked s' = Normal 9 s' \<and>
         T_log s' = [Assigned By_copy 9, Constructed By_copy 5]"
    by auto
  from assign_value_assigns_or_constructs [OF c, of 9] d m
  have two: "\<exists>s'. assign_value 9 ?e = Normal () s' \<and> has_value s' \<and>
         value_checked s' = Normal 9 s' \<and> T_log s' = [Constructed By_copy 9]"
    by auto
  from a b c d one two show ?thesis by blast
qed

subsection \<open>Assignment of an optional\<close>

text \<open>
  Claim C7. The assignment \<^verbatim>\<open>a = b\<close> of optionals, by copy and by move, for optionals that
  satisfy the invariant. When \<open>a\<close> and \<open>b\<close> are the same object, the store is unchanged.
  When \<open>b\<close> is empty, \<open>a\<close> is reset and ends empty. When both are engaged, the value of \<open>b\<close>
  is assigned to the object in \<open>a\<close>. When \<open>b\<close> is engaged and \<open>a\<close> is empty, a \<^verbatim>\<open>T\<close> with
  the value of \<open>b\<close> is constructed in \<open>a\<close>, which becomes engaged. Copy assignment leaves
  \<open>b\<close> as it is; move assignment leaves \<open>b\<close> engaged, holding what the move of \<^verbatim>\<open>T\<close> left.
\<close>

theorem optional_assignment_by_cases:
  assumes inv_a: "optional_invariant (h a)" and inv_b: "optional_invariant (h b)"
  shows "copy_assign a a h = Normal () h \<and>
         move_assign T a a h = Normal () h \<and>
         (a \<noteq> b \<and> \<not> has_value (h b) \<longrightarrow>
            (\<exists>h'. copy_assign a b h = Normal () h' \<and> move_assign T a b h = Normal () h' \<and>
                  at a reset h = Normal () h' \<and>
                  \<not> has_value (h' a) \<and> data (h' a) = [] \<and> h' b = h b)) \<and>
         (a \<noteq> b \<and> has_value (h b) \<and> has_value (h a) \<longrightarrow>
            (\<exists>v w. data (h b) = [v] \<and> data (h a) = [w] \<and>
               (\<exists>h'. copy_assign a b h = Normal () h' \<and>
                     has_value (h' a) \<and> value_checked (h' a) = Normal v (h' a) \<and>
                     T_log (h' a) = Assigned By_copy v # T_log (h a) \<and> h' b = h b) \<and>
               (\<exists>h'. move_assign T a b h = Normal () h' \<and>
                     has_value (h' a) \<and> value_checked (h' a) = Normal v (h' a) \<and>
                     T_log (h' a) = Assigned By_move v # T_log (h a) \<and>
                     has_value (h' b) \<and> data (h' b) = [after_move_assign T w v]))) \<and>
         (a \<noteq> b \<and> has_value (h b) \<and> \<not> has_value (h a) \<longrightarrow>
            (\<exists>v. data (h b) = [v] \<and>
               (\<exists>h'. copy_assign a b h = Normal () h' \<and>
                     has_value (h' a) \<and> value_checked (h' a) = Normal v (h' a) \<and>
                     T_log (h' a) = Constructed By_copy v # T_log (h a) \<and> h' b = h b) \<and>
               (\<exists>h'. move_assign T a b h = Normal () h' \<and>
                     has_value (h' a) \<and> value_checked (h' a) = Normal v (h' a) \<and>
                     T_log (h' a) = Constructed By_move v # T_log (h a) \<and>
                     has_value (h' b) \<and> data (h' b) = [after_move_ctor T v])))"
proof -
  have from_empty: "\<exists>h'. copy_assign a b h = Normal () h' \<and> move_assign T a b h = Normal () h' \<and>
                  at a reset h = Normal () h' \<and>
                  \<not> has_value (h' a) \<and> data (h' a) = [] \<and> h' b = h b"
    if "a \<noteq> b" "\<not> has_value (h b)"
  proof -
    from at_reset_result [where h = h and p = a, OF inv_a] obtain h' where
      "at a reset h = Normal () h'" "\<not> is_initialized (h' a)" "data (h' a) = []"
      "\<forall>q. q \<noteq> a \<longrightarrow> h' q = h q" by blast
    with that show ?thesis
      by (auto simp: copy_assign_from_empty move_assign_from_empty has_value_def)
  qed
  have both: "\<exists>v w. data (h b) = [v] \<and> data (h a) = [w] \<and>
               (\<exists>h'. copy_assign a b h = Normal () h' \<and>
                     has_value (h' a) \<and> value_checked (h' a) = Normal v (h' a) \<and>
                     T_log (h' a) = Assigned By_copy v # T_log (h a) \<and> h' b = h b) \<and>
               (\<exists>h'. move_assign T a b h = Normal () h' \<and>
                     has_value (h' a) \<and> value_checked (h' a) = Normal v (h' a) \<and>
                     T_log (h' a) = Assigned By_move v # T_log (h a) \<and>
                     has_value (h' b) \<and> data (h' b) = [after_move_assign T w v])"
    if "a \<noteq> b" "has_value (h b)" "has_value (h a)"
  proof -
    from that invariant_cases [OF inv_b] obtain v where v: "data (h b) = [v]"
      by (auto simp: has_value_def)
    from that invariant_cases [OF inv_a] obtain w where w: "data (h a) = [w]"
      by (auto simp: has_value_def)
    from that v w show ?thesis
      by (simp add: copy_assign_both_engaged move_assign_both_engaged has_value_def
          value_checked_def operator_star_def)
  qed
  have into_empty: "\<exists>v. data (h b) = [v] \<and>
               (\<exists>h'. copy_assign a b h = Normal () h' \<and>
                     has_value (h' a) \<and> value_checked (h' a) = Normal v (h' a) \<and>
                     T_log (h' a) = Constructed By_copy v # T_log (h a) \<and> h' b = h b) \<and>
               (\<exists>h'. move_assign T a b h = Normal () h' \<and>
                     has_value (h' a) \<and> value_checked (h' a) = Normal v (h' a) \<and>
                     T_log (h' a) = Constructed By_move v # T_log (h a) \<and>
                     has_value (h' b) \<and> data (h' b) = [after_move_ctor T v])"
    if "a \<noteq> b" "has_value (h b)" "\<not> has_value (h a)"
  proof -
    from that invariant_cases [OF inv_b] obtain v where v: "data (h b) = [v]"
      by (auto simp: has_value_def)
    from that invariant_cases [OF inv_a] have e: "data (h a) = []"
      by (auto simp: has_value_def)
    from that v e show ?thesis
      by (simp add: copy_assign_into_empty move_assign_into_empty has_value_def
          value_checked_def operator_star_def)
  qed
  from from_empty both into_empty show ?thesis
    by (simp add: copy_assign_self move_assign_self)
qed

theorem optional_assignment_by_cases_witness:
  "optional_invariant (((\<lambda>p::addr. optional_default)(1 := optional_from_value (7::int),
                                                   0 := optional_from_value 5)) 0) \<and>
   optional_invariant (((\<lambda>p::addr. optional_default)(1 := optional_from_value (7::int),
                                                   0 := optional_from_value 5)) 1) \<and>
   optional_invariant (((\<lambda>p::addr. optional_default)(1 := optional_from_value (7::int),
                                                   0 := optional_from_value 5)) 2) \<and>
   copy_assign 0 0 ((\<lambda>p::addr. optional_default)(1 := optional_from_value (7::int),
                                                  0 := optional_from_value 5)) =
     Normal () ((\<lambda>p::addr. optional_default)(1 := optional_from_value (7::int),
                                              0 := optional_from_value 5)) \<and>
   (\<exists>h'. copy_assign 0 1 ((\<lambda>p::addr. optional_default)(1 := optional_from_value (7::int),
                                                        0 := optional_from_value 5)) =
            Normal () h' \<and>
         value_checked (h' 0) = Normal 7 (h' 0)) \<and>
   (\<exists>h'. copy_assign 0 2 ((\<lambda>p::addr. optional_default)(1 := optional_from_value (7::int),
                                                        0 := optional_from_value 5)) =
            Normal () h' \<and>
         \<not> has_value (h' 0)) \<and>
   (\<exists>h'. move_assign \<lparr>after_move_ctor = (\<lambda>x. 0), after_move_assign = (\<lambda>w x. w)\<rparr> 2 1
            ((\<lambda>p::addr. optional_default)(1 := optional_from_value (7::int),
                                           0 := optional_from_value 5)) = Normal () h' \<and>
         value_checked (h' 2) = Normal 7 (h' 2) \<and> has_value (h' 1) \<and> data (h' 1) = [0])"
proof -
  let ?h = "(\<lambda>p::addr. optional_default)(1 := optional_from_value (7::int),
                                          0 := optional_from_value 5)"
  let ?T = "\<lparr>after_move_ctor = (\<lambda>x::int. 0), after_move_assign = (\<lambda>w x::int. w)\<rparr>"
  have inv: "optional_invariant (?h 0)" "optional_invariant (?h 1)" "optional_invariant (?h 2)"
    by (simp_all add: optional_invariant_def optional_default_def optional_from_value_def
        fresh_def placement_new_def)
  have facts: "has_value (?h 0)" "has_value (?h 1)" "\<not> has_value (?h 2)"
    "data (?h 1) = [7]" "data (?h 0) = [5]"
    by (simp_all add: has_value_def optional_default_def optional_from_value_def fresh_def
        placement_new_def)
  have ne: "(0::addr) \<noteq> 1" "(0::addr) \<noteq> 2" "(2::addr) \<noteq> 1" by simp_all
  from optional_assignment_by_cases
    [where h = ?h and a = 0 and b = 0 and T = ?T, OF inv(1) inv(1)]
  have self: "copy_assign 0 0 ?h = Normal () ?h" by blast
  from optional_assignment_by_cases
    [where h = ?h and a = 0 and b = 1 and T = ?T, OF inv(1) inv(2)] facts ne
  have both: "\<exists>h'. copy_assign 0 1 ?h = Normal () h' \<and> value_checked (h' 0) = Normal 7 (h' 0)"
    by auto
  from optional_assignment_by_cases
    [where h = ?h and a = 0 and b = 2 and T = ?T, OF inv(1) inv(3)] facts ne
  have empty: "\<exists>h'. copy_assign 0 2 ?h = Normal () h' \<and> \<not> has_value (h' 0)"
    by auto
  from optional_assignment_by_cases
    [where h = ?h and a = 2 and b = 1 and T = ?T, OF inv(3) inv(2)] facts ne
  have into: "\<exists>h'. move_assign ?T 2 1 ?h = Normal () h' \<and>
      value_checked (h' 2) = Normal 7 (h' 2) \<and> has_value (h' 1) \<and> data (h' 1) = [0]"
    by auto
  from inv self both empty into show ?thesis by blast
qed

subsection \<open>Copy construction\<close>

text \<open>
  Claim C8. Copy construction of \<open>B\<close> (at \<open>this\<close>) from an engaged \<open>A\<close> (at \<open>other\<close>) that holds
  \<open>v\<close> gives an engaged \<open>B\<close> whose checked access returns \<open>v\<close>, and leaves \<open>A\<close> as it is. The
  buffers are independent: after assigning another value \<open>w\<close> to \<open>B\<close>, \<open>B\<close> holds \<open>w\<close> and
  \<open>A\<close> is still engaged with \<open>v\<close>; indeed no member function called on \<open>B\<close> changes \<open>A\<close>.
  Copy construction from an empty optional gives an empty optional.
\<close>

theorem copy_construct_independent:
  assumes ne: "this \<noteq> other" and inv: "optional_invariant (h other)"
  shows "(has_value (h other) \<longrightarrow>
            (\<exists>v h'. data (h other) = [v] \<and>
               copy_construct this other h = Normal () h' \<and>
               has_value (h' this) \<and> value_checked (h' this) = Normal v (h' this) \<and>
               h' other = h other \<and>
               (\<exists>h2. at this (assign_value w) h' = Normal () h2 \<and>
                     value_checked (h2 this) = Normal w (h2 this) \<and>
                     h2 other = h other \<and> has_value (h2 other) \<and>
                     value_checked (h2 other) = Normal v (h2 other)) \<and>
               (\<forall>f r e h3. at this f h' = Normal r h3 \<or> at this f h' = Raised e h3 \<longrightarrow>
                     h3 other = h other))) \<and>
         (\<not> has_value (h other) \<longrightarrow>
            (\<exists>h'. copy_construct this other h = Normal () h' \<and>
                  \<not> has_value (h' this) \<and> h' this = optional_default \<and> h' other = h other))"
proof (cases "is_initialized (h other)")
  case False
  with ne show ?thesis
    by (simp add: copy_construct_empty has_value_def optional_default_def fresh_def)
next
  case True
  with invariant_cases [OF inv] obtain v where v: "data (h other) = [v]" by auto
  let ?h' = "h(this := optional_from_value v)"
  have c: "copy_construct this other h = Normal () ?h'"
    using ne True v by (simp add: copy_construct_engaged)
  have mutate: "\<exists>h2. at this (assign_value w) ?h' = Normal () h2 \<and>
                     value_checked (h2 this) = Normal w (h2 this) \<and>
                     h2 other = h other \<and> has_value (h2 other) \<and>
                     value_checked (h2 other) = Normal v (h2 other)"
    using ne True v
    by (simp add: at_def assign_value_def T_assign_def optional_from_value_def fresh_def
        placement_new_def has_value_def value_checked_def operator_star_def)
  have here: "has_value (?h' this) \<and> value_checked (?h' this) = Normal v (?h' this) \<and>
              ?h' other = h other"
    using ne
    by (simp add: optional_from_value_def fresh_def placement_new_def has_value_def
        value_checked_def operator_star_def)
  show ?thesis
    apply (intro conjI impI)
    subgoal
      apply (rule exI [where x = v])
      apply (rule exI [where x = "?h'"])
      apply (intro conjI)
      subgoal by (rule v)
      subgoal by (rule c)
      subgoal using here by blast
      subgoal using here by blast
      subgoal using here by blast
      subgoal by (rule mutate)
      subgoal
        apply (intro allI impI)
        apply (drule at_frame [OF ne])
        using ne apply simp
        done
      done
    subgoal using True by (simp add: has_value_def)
    done
qed

theorem copy_construct_independent_witness:
  "optional_invariant (((\<lambda>p::addr. optional_default)(1 := optional_from_value (7::int))) 1) \<and>
   has_value (((\<lambda>p::addr. optional_default)(1 := optional_from_value (7::int))) 1) \<and>
   (\<exists>h'. copy_construct 0 1 ((\<lambda>p::addr. optional_default)(1 := optional_from_value (7::int))) =
            Normal () h' \<and>
         value_checked (h' 0) = Normal 7 (h' 0) \<and>
         (\<exists>h2. at 0 (assign_value 9) h' = Normal () h2 \<and>
               value_checked (h2 0) = Normal 9 (h2 0) \<and>
               value_checked (h2 1) = Normal 7 (h2 1)))"
proof -
  let ?h = "(\<lambda>p::addr. optional_default)(1 := optional_from_value (7::int))"
  have a: "(0::addr) \<noteq> 1" by simp
  have b: "optional_invariant (?h 1)"
    by (simp add: optional_invariant_def optional_from_value_def fresh_def placement_new_def)
  have c: "has_value (?h 1)" "data (?h 1) = [7]"
    by (simp_all add: has_value_def optional_from_value_def fresh_def placement_new_def)
  from copy_construct_independent [where h = ?h and this = 0 and other = 1 and w = 9, OF a b] c
  have "\<exists>h'. copy_construct 0 1 ?h = Normal () h' \<and>
         value_checked (h' 0) = Normal 7 (h' 0) \<and>
         (\<exists>h2. at 0 (assign_value 9) h' = Normal () h2 \<and>
               value_checked (h2 0) = Normal 9 (h2 0) \<and>
               value_checked (h2 1) = Normal 7 (h2 1))"
    by auto
  with b c show ?thesis by blast
qed

subsection \<open>reset\<close>

text \<open>
  Claim C9. \<^verbatim>\<open>reset()\<close> twice is \<^verbatim>\<open>reset()\<close> once, in every state. On an empty optional it
  returns the optional unchanged. On an optional that satisfies the invariant it returns
  an empty optional, on which a second \<^verbatim>\<open>reset()\<close> changes nothing.
\<close>

theorem reset_idempotent:
  "and_then (reset s) (\<lambda>_. reset) = reset s \<and>
   (\<not> has_value s \<longrightarrow> reset s = Normal () s) \<and>
   (optional_invariant s \<longrightarrow>
      (\<exists>s'. reset s = Normal () s' \<and> \<not> has_value s' \<and> reset s' = Normal () s'))"
proof -
  have twice: "and_then (reset s) (\<lambda>_. reset) = reset s"
    by (cases "data s") (simp_all add: reset_def T_destroy_def)
  have after: "\<exists>s'. reset s = Normal () s' \<and> \<not> has_value s' \<and> reset s' = Normal () s'"
    if "optional_invariant s"
  proof (cases "is_initialized s")
    case True
    with invariant_cases [OF that] obtain v where "data s = [v]" by auto
    with True show ?thesis by (simp add: reset_engaged reset_empty has_value_def)
  next
    case False
    then show ?thesis by (simp add: reset_empty has_value_def)
  qed
  from twice after show ?thesis
    by (simp add: has_value_def reset_empty)
qed

theorem reset_idempotent_witness:
  "optional_invariant (optional_from_value (5::int)) \<and>
   reset (optional_from_value (5::int)) =
     Normal () \<lparr>data = [], is_initialized = False,
                T_log = [Destroyed 5, Constructed By_copy 5]\<rparr> \<and>
   \<not> has_value (optional_default :: int optional) \<and>
   reset (optional_default :: int optional) = Normal () optional_default"
proof -
  let ?s = "optional_from_value (5::int)"
  let ?e = "optional_default :: int optional"
  have a: "optional_invariant ?s"
    by (simp add: optional_invariant_def optional_from_value_def fresh_def placement_new_def)
  have d: "data ?s = [5]" "T_log ?s = [Constructed By_copy 5]" "is_initialized ?s"
    by (simp_all add: optional_from_value_def fresh_def placement_new_def)
  have e: "\<not> has_value ?e"
    by (simp add: has_value_def optional_default_def fresh_def)
  from reset_idempotent [of ?s] a obtain s' where
    s': "reset ?s = Normal () s'" "\<not> has_value s'" by blast
  from s'(1) d have "s' = \<lparr>data = [], is_initialized = False,
                T_log = [Destroyed 5, Constructed By_copy 5]\<rparr>"
    by (simp add: reset_engaged optional_from_value_def fresh_def placement_new_def)
  with s'(1) have one: "reset ?s = Normal () \<lparr>data = [], is_initialized = False,
                T_log = [Destroyed 5, Constructed By_copy 5]\<rparr>" by simp
  from reset_idempotent [of ?e] e have two: "reset ?e = Normal () ?e" by blast
  from a e one two show ?thesis by blast
qed

subsection \<open>A failed checked access changes nothing\<close>

text \<open>
  Claim C10. The checked access on an empty optional raises \<^verbatim>\<open>bad_optional_access\<close> and the
  state it leaves is the state it was called in: still empty, the same buffer, and no
  event of \<^verbatim>\<open>T\<close> added to the log (nothing constructed, nothing destroyed).
\<close>

theorem value_on_empty_changes_nothing:
  assumes "\<not> has_value s"
  shows "value_checked s = Raised bad_optional_access s \<and>
         holds_after (\<lambda>s'. s' = s \<and> \<not> has_value s' \<and> data s' = data s \<and> T_log s' = T_log s)
           (value_checked s)"
  using assms by (simp add: value_checked_def has_value_def)

theorem value_on_empty_changes_nothing_witness:
  "\<not> has_value (optional_default :: int optional) \<and>
   value_checked (optional_default :: int optional) = Raised bad_optional_access optional_default"
proof -
  have a: "\<not> has_value (optional_default :: int optional)"
    by (simp add: has_value_def optional_default_def fresh_def)
  from value_on_empty_changes_nothing [OF a] a show ?thesis by blast
qed

end
